theory Spec2Isabelle
  imports Complex_Main "HOL-Library.Word"
begin

unbundle bit_operations_syntax

section \<open>Data model of \<open>qcardio/commands/arm.py\<close>\<close>

text \<open>
  A notification payload is a Python \<open>bytes\<close>/\<open>bytearray\<close>: a list of integers in
  \<open>0..255\<close>. Reading an element gives a Python \<open>int\<close> (unbounded), here \<open>uint b\<close>.
\<close>

type_synonym byte = "8 word"

text \<open>
  The exceptions the module raises or handles. \<open>QardioConnectionError\<close> is raised
  \<open>from e\<close>, so it carries its cause next to its message.
\<close>

datatype exn =
    IndexError
  | ValueError
  | TimeoutError
  | BleakError string
  | OSError string
  | QardioConnectionError string exn
  | QardioMeasurementAborted string

datatype Phase = INFLATING | MEASURING | DEFLATING | COMPLETED | ABORTED | ERROR

text \<open>The dict returned by \<open>parse_bp_notification\<close>, one field per key.\<close>

record frame =
  flags :: int
  unit :: string
  systolic :: rat
  diastolic :: rat
  map_val :: rat
  pulse :: "rat option"
  status :: "int option"

section \<open>SFLOAT decoding\<close>

text \<open>
  A Python number: an \<open>int\<close>, or a \<open>float\<close>, given by the exact value of its IEEE-754
  binary64 double.
\<close>

datatype pynum = PyInt int | PyFloat rat

fun num_value :: "pynum \<Rightarrow> rat" where
  "num_value (PyInt n) = of_int n"
| "num_value (PyFloat x) = x"

text \<open>
  Rounding an exact value to a double, to nearest and ties to even, as IEEE-754
  arithmetic does after every operation. \<open>bit_length n\<close> is the number of binary digits
  of a positive \<open>n\<close>; the unit in the last place of \<open>x\<close> is \<open>2\<close> to the
  \<open>ulp_exponent x\<close>, 52 binary places below the leading bit of \<open>x\<close> and never below
  \<open>2\<close> to the \<open>-1074\<close> (the subnormal range).
  Overflow to infinity is left out: the decoder's floats stay below 205 in absolute
  value.
\<close>

definition round_half_even :: "rat \<Rightarrow> int" where
  "round_half_even x =
     (let f = \<lfloor>x\<rfloor>; r = x - of_int f
      in if r < 1 / 2 then f else if 1 / 2 < r then f + 1 else if even f then f else f + 1)"

function bit_length :: "int \<Rightarrow> nat" where
  "bit_length n = (if n \<le> 0 then 0 else Suc (bit_length (n div 2)))"
  by pat_completeness auto
termination
  by (relation "measure nat") auto

declare bit_length.simps [simp del]

definition ulp_exponent :: "rat \<Rightarrow> int" where
  "ulp_exponent x = max (- 1074) (int (bit_length \<lfloor>\<bar>x\<bar> * 2 ^ 1074\<rfloor>) - 1127)"

definition round_double :: "rat \<Rightarrow> rat" where
  "round_double x =
     of_int (round_half_even (x * 2 powi (- ulp_exponent x))) * 2 powi (ulp_exponent x)"

text \<open>
  Python's \<open>10 ** exponent\<close> for an \<open>int\<close> exponent: the exact \<open>int\<close> power when the
  exponent is not negative, and otherwise the \<open>float\<close> that the C library's \<open>pow\<close>
  returns, taken to be the double nearest to the exact power.
\<close>

definition pow10 :: "int \<Rightarrow> pynum" where
  "pow10 e = (if 0 \<le> e then PyInt (10 ^ nat e)
              else PyFloat (round_double (1 / 10 ^ nat (- e))))"

text \<open>
  Python's \<open>mantissa * p\<close> for an \<open>int\<close> mantissa: exact on two \<open>int\<close>s; with a
  \<open>float\<close>, the mantissa is converted to a double and the product is rounded.
\<close>

fun times_int :: "int \<Rightarrow> pynum \<Rightarrow> pynum" where
  "times_int m (PyInt n) = PyInt (m * n)"
| "times_int m (PyFloat x) = PyFloat (round_double (round_double (of_int m) * x))"

text \<open>
  \<open>parse_sfloat\<close>: \<open>raw[0]\<close> and \<open>raw[1]\<close> raise \<open>IndexError\<close> on a short argument. The
  result is the numeric value of the number returned, an \<open>int\<close> for a non-negative
  exponent and a \<open>float\<close> for a negative one.
\<close>

definition parse_sfloat :: "byte list \<Rightarrow> exn + rat" where
  "parse_sfloat raw =
     (if length raw < 1 then Inl IndexError
      else if length raw < 2 then Inl IndexError
      else
        let val = uint (raw ! 0) OR push_bit 8 (uint (raw ! 1));
            m0 = val AND 0x0FFF;
            mantissa = (if m0 \<ge> 0x0800 then m0 - 0x1000 else m0);
            e0 = drop_bit 12 val AND 0x000F;
            exponent = (if e0 \<ge> 0x0008 then e0 - 0x0010 else e0)
        in Inr (num_value (times_int mantissa (pow10 exponent))))"

section \<open>Measurement frame parsing\<close>

text \<open>Python's slice \<open>data[a:b]\<close> for \<open>0 \<le> a \<le> b\<close>: it never raises, it returns what is there.\<close>

definition slice_list :: "'a list \<Rightarrow> nat \<Rightarrow> nat \<Rightarrow> 'a list" where
  "slice_list xs a b = take (b - a) (drop a xs)"

text \<open>\<open>int.from_bytes(bs, 'little')\<close>, defined for every length, \<open>0\<close> for the empty one.\<close>

fun from_bytes_little :: "byte list \<Rightarrow> int" where
  "from_bytes_little [] = 0"
| "from_bytes_little (b # bs) = uint b + 256 * from_bytes_little bs"

definition parse_bp_notification :: "byte list \<Rightarrow> exn + frame" where
  "parse_bp_notification data =
     (case data of
        [] \<Rightarrow> Inl IndexError
      | f # _ \<Rightarrow>
          let fl = uint f;
              u = (if fl AND 0x01 \<noteq> 0 then ''kPa'' else ''mmHg'')
          in
          case parse_sfloat (slice_list data 1 3) of Inl e \<Rightarrow> Inl e | Inr sys \<Rightarrow>
          case parse_sfloat (slice_list data 3 5) of Inl e \<Rightarrow> Inl e | Inr dia \<Rightarrow>
          case parse_sfloat (slice_list data 5 7) of Inl e \<Rightarrow> Inl e | Inr mp \<Rightarrow>
          case (if fl AND 0x04 \<noteq> 0
                then (case parse_sfloat (slice_list data 7 9) of
                        Inl e \<Rightarrow> Inl e | Inr p \<Rightarrow> Inr (Some p, 9 :: nat))
                else Inr (None, 7)) of
            Inl e \<Rightarrow> Inl e
          | Inr (pl, offset) \<Rightarrow>
              let st = (if fl AND 0x10 \<noteq> 0
                        then Some (from_bytes_little (slice_list data offset (offset + 2)))
                        else None)
              in Inr \<lparr>flags = fl, unit = u, systolic = sys, diastolic = dia,
                      map_val = mp, pulse = pl, status = st\<rparr>)"

section \<open>Condition decoding\<close>

text \<open>The dict literal of \<open>decode_conditions\<close>, in insertion order.\<close>

definition mapping :: "(nat \<times> string) list" where
  "mapping = [(0, ''body_movement''), (1, ''cuff_too_loose''),
              (2, ''irregular_pulse''), (3, ''pulse_rate_out_of_range'')]"

definition decode_conditions :: "int \<Rightarrow> string list" where
  "decode_conditions st = [name. (b, name) \<leftarrow> mapping, st AND push_bit b 1 \<noteq> 0]"

section \<open>Phase decoding\<close>

text \<open>The enum call \<open>Phase(v)\<close>: a value that names no member raises \<open>ValueError\<close>.\<close>

definition Phase_of :: "int \<Rightarrow> exn + Phase" where
  "Phase_of v =
     (if v = 0x01 then Inr INFLATING
      else if v = 0x02 then Inr MEASURING
      else if v = 0x03 then Inr DEFLATING
      else if v = 0x04 then Inr COMPLETED
      else if v = 0x05 then Inr ABORTED
      else if v = 0x06 then Inr ERROR
      else Inl ValueError)"

text \<open>\<open>str(phase)\<close> of a plain \<open>enum.Enum\<close> member.\<close>

fun str_Phase :: "Phase \<Rightarrow> string" where
  "str_Phase INFLATING = ''Phase.INFLATING''"
| "str_Phase MEASURING = ''Phase.MEASURING''"
| "str_Phase DEFLATING = ''Phase.DEFLATING''"
| "str_Phase COMPLETED = ''Phase.COMPLETED''"
| "str_Phase ABORTED = ''Phase.ABORTED''"
| "str_Phase ERROR = ''Phase.ERROR''"

text \<open>\<open>_decode_vendor\<close>: \<open>None\<close> for another shape, \<open>Phase(raw[1])\<close> otherwise.\<close>

definition decode_vendor :: "byte list \<Rightarrow> exn + Phase option" where
  "decode_vendor raw =
     (if length raw = 2 \<and> raw ! 0 = 0xF2
      then (case Phase_of (uint (raw ! 1)) of Inl e \<Rightarrow> Inl e | Inr p \<Rightarrow> Inr (Some p))
      else Inr None)"

section \<open>The measurement session\<close>

text \<open>
  What the progress callback receives: \<open>{"type":"phase","phase":p}\<close> or
  \<open>{"type":"bp", **m}\<close>.
\<close>

datatype progress_event = PhaseEvent Phase | BpEvent frame

text \<open>
  The variables \<open>_measure_async\<close> shares with its two handlers: the \<open>asyncio.Event\<close>,
  the dict \<open>result\<close> (\<open>None\<close> while it is still \<open>{}\<close>; \<open>result.update(m)\<close> sets every key
  of the frame at once), the dict \<open>aborted\<close>, and the calls made to \<open>progress\<close> so far.
\<close>

record session =
  event :: bool
  result :: "frame option"
  aborted_flag :: bool
  aborted_reason :: string
  progress_log :: "progress_event list"

definition init_session :: session where
  "init_session = \<lparr>event = False, result = None, aborted_flag = False,
                    aborted_reason = [], progress_log = []\<rparr>"

text \<open>\<open>if progress: progress(ev)\<close>; \<open>sink\<close> says whether a callback was passed.\<close>

definition emit :: "bool \<Rightarrow> progress_event \<Rightarrow> session \<Rightarrow> session" where
  "emit sink ev s = (if sink then s\<lparr>progress_log := progress_log s @ [ev]\<rparr> else s)"

text \<open>
  A handler returns the updated variables and the exception it raised, if any.
  \<open>handle_measurement\<close> parses first and looks for the implicit abort afterwards,
  as the source does.
\<close>

definition handle_measurement :: "bool \<Rightarrow> byte list \<Rightarrow> session \<Rightarrow> session \<times> exn option" where
  "handle_measurement sink data s =
     (case parse_bp_notification data of
        Inl e \<Rightarrow> (s, Some e)
      | Inr m \<Rightarrow>
          if length data \<ge> 5 \<and> data ! 0 = 0x04 \<and> data ! 1 = 0xFF then
            let st = from_bytes_little (slice_list data 3 5);
                s1 = s\<lparr>aborted_flag := True\<rparr>;
                s2 = s1\<lparr>aborted_reason := ''arm movement''\<rparr>;
                s3 = emit sink (PhaseEvent ABORTED) s2;
                s4 = s3\<lparr>event := True\<rparr>
            in (s4, Some (QardioMeasurementAborted ''arm movement''))
          else
            let s1 = emit sink (BpEvent m) s
            in if flags m AND 0x10 \<noteq> 0
               then (s1\<lparr>result := Some m, event := True\<rparr>, None)
               else (s1, None))"

definition handle_control :: "bool \<Rightarrow> byte list \<Rightarrow> session \<Rightarrow> session \<times> exn option" where
  "handle_control sink data s =
     (case decode_vendor data of
        Inl e \<Rightarrow> (s, Some e)
      | Inr None \<Rightarrow> (s, None)
      | Inr (Some phase) \<Rightarrow>
          let s1 = emit sink (PhaseEvent phase) s;
              s2 = (if phase \<in> {COMPLETED} then s1\<lparr>event := True\<rparr> else s1)
          in if phase \<in> {ABORTED, ERROR}
             then (s2\<lparr>event := True\<rparr>, Some (QardioMeasurementAborted (str_Phase phase)))
             else (s2, None))"

text \<open>
  The transport (the \<open>bleak\<close> client) is not part of the repository; a run of it is a
  script: whether connecting, either \<open>start_notify\<close> or the start write raises, the
  notifications that arrive before the timeout elapses, in order, and whether an
  exception raised by a handler reaches the coroutine that awaits the event
  (\<open>propagates\<close>) or stays with the transport.
\<close>

datatype channel = BP_MEAS | CONTROL

record transport =
  connect_raises :: "exn option"
  notify_meas_raises :: "exn option"
  notify_control_raises :: "exn option"
  write_raises :: "exn option"
  inbound :: "(channel \<times> byte list) list"
  propagates :: bool

definition dispatch :: "bool \<Rightarrow> channel \<Rightarrow> byte list \<Rightarrow> session \<Rightarrow> session \<times> exn option" where
  "dispatch sink ch data s =
     (case ch of BP_MEAS \<Rightarrow> handle_measurement sink data s
               | CONTROL \<Rightarrow> handle_control sink data s)"

text \<open>
  \<open>asyncio.wait_for(event.wait(), timeout)\<close>: notifications are handled one at a time
  until the event is set; when none is left and the event is still unset the timeout
  elapses and \<open>TimeoutError\<close> is raised.
\<close>

fun wait_for_event ::
    "bool \<Rightarrow> bool \<Rightarrow> (channel \<times> byte list) list \<Rightarrow> session \<Rightarrow> session \<times> exn option" where
  "wait_for_event prop sink [] s = (if event s then (s, None) else (s, Some TimeoutError))"
| "wait_for_event prop sink ((ch, data) # rest) s =
     (if event s then (s, None)
      else case dispatch sink ch data s of
             (s', Some e) \<Rightarrow> if prop then (s', Some e) else wait_for_event prop sink rest s'
           | (s', None) \<Rightarrow> wait_for_event prop sink rest s')"

text \<open>The \<open>except (BleakError, asyncio.TimeoutError, OSError)\<close> clause.\<close>

fun caught_as_connection :: "exn \<Rightarrow> bool" where
  "caught_as_connection (BleakError _) = True"
| "caught_as_connection TimeoutError = True"
| "caught_as_connection (OSError _) = True"
| "caught_as_connection _ = False"

definition reraise :: "exn \<Rightarrow> exn" where
  "reraise e = (if caught_as_connection e then QardioConnectionError ''cannot connect'' e else e)"

text \<open>
  \<open>_measure_async\<close>: the calls made to \<open>progress\<close>, and the exception raised or the dict
  returned.
\<close>

definition measure_async :: "transport \<Rightarrow> bool \<Rightarrow> progress_event list \<times> (exn + frame option)" where
  "measure_async tr sink =
     (case connect_raises tr of Some e \<Rightarrow> ([], Inl (reraise e)) | None \<Rightarrow>
      case notify_meas_raises tr of Some e \<Rightarrow> ([], Inl (reraise e)) | None \<Rightarrow>
      case notify_control_raises tr of Some e \<Rightarrow> ([], Inl (reraise e)) | None \<Rightarrow>
      case write_raises tr of Some e \<Rightarrow> ([], Inl (reraise e)) | None \<Rightarrow>
      case wait_for_event (propagates tr) sink (inbound tr) init_session of
        (s, Some e) \<Rightarrow> (progress_log s, Inl (reraise e))
      | (s, None) \<Rightarrow>
          if aborted_flag s
          then (progress_log s, Inl (QardioMeasurementAborted (aborted_reason s)))
          else (progress_log s, Inr (result s)))"

section \<open>The plugin boundary\<close>

text \<open>
  \<open>_read_char_async\<close> on a transport whose read raises or answers with bytes:
  only \<open>BleakError\<close> is wrapped.
\<close>

fun str_exn :: "exn \<Rightarrow> string" where
  "str_exn IndexError = ''list index out of range''"
| "str_exn ValueError = ''invalid value''"
| "str_exn TimeoutError = []"
| "str_exn (BleakError m) = m"
| "str_exn (OSError m) = m"
| "str_exn (QardioConnectionError m _) = m"
| "str_exn (QardioMeasurementAborted m) = m"

definition read_char_async :: "exn + byte list \<Rightarrow> exn + byte list" where
  "read_char_async rd =
     (case rd of
        Inl (BleakError m) \<Rightarrow> Inl (QardioConnectionError (''read failed: '' @ m) (BleakError m))
      | Inl e \<Rightarrow> Inl e
      | Inr bs \<Rightarrow> Inr bs)"

text \<open>\<open>"|".join(xs)\<close>.\<close>

fun join_bar :: "string list \<Rightarrow> string" where
  "join_bar [] = []"
| "join_bar [x] = x"
| "join_bar (x # y # ys) = x @ ''|'' @ join_bar (y # ys)"

text \<open>
  The row \<open>Plugin.measure\<close> returns: \<open>**m\<close> splices the frame's keys in, none when the
  session returned \<open>{}\<close>.
\<close>

record row =
  timestamp :: string
  reading :: "frame option"
  battery :: int
  conditions :: string

text \<open>\<open>m.get("status") or 0\<close>.\<close>

definition status_or_0 :: "frame option \<Rightarrow> int" where
  "status_or_0 m =
     (case m of None \<Rightarrow> 0
      | Some f \<Rightarrow> (case status f of None \<Rightarrow> 0 | Some v \<Rightarrow> if v = 0 then 0 else v))"

text \<open>
  One call of \<open>Plugin.measure\<close>: the lines printed, the number of battery reads
  issued, the progress calls made, and what the call raises or returns (\<open>None\<close> or
  the row). \<open>battery_read\<close> is what the battery characteristic's read does, \<open>now\<close> the
  formatted clock.
\<close>

record measure_run =
  printed :: "string list"
  battery_reads :: nat
  progress_calls :: "progress_event list"
  returned :: "exn + row option"

fun caught_by_measure :: "exn \<Rightarrow> bool" where
  "caught_by_measure (QardioConnectionError _ _) = True"
| "caught_by_measure (QardioMeasurementAborted _) = True"
| "caught_by_measure _ = False"

definition Plugin_measure :: "transport \<Rightarrow> bool \<Rightarrow> exn + byte list \<Rightarrow> string \<Rightarrow> measure_run" where
  "Plugin_measure tr sink battery_read now =
     (case measure_async tr sink of
        (pl, Inl e) \<Rightarrow>
          if caught_by_measure e
          then \<lparr>printed = [''[FAIL] '' @ str_exn e], battery_reads = 0,
                progress_calls = pl, returned = Inr None\<rparr>
          else \<lparr>printed = [], battery_reads = 0, progress_calls = pl, returned = Inl e\<rparr>
      | (pl, Inr m) \<Rightarrow>
          (case read_char_async battery_read of
             Inl e \<Rightarrow> \<lparr>printed = [], battery_reads = 1, progress_calls = pl, returned = Inl e\<rparr>
           | Inr [] \<Rightarrow> \<lparr>printed = [], battery_reads = 1, progress_calls = pl,
                         returned = Inl IndexError\<rparr>
           | Inr (b # _) \<Rightarrow>
               let cs = decode_conditions (status_or_0 m)
               in \<lparr>printed = [], battery_reads = 1, progress_calls = pl,
                    returned = Inr (Some \<lparr>timestamp = now, reading = m, battery = uint b,
                                           conditions = join_bar cs\<rparr>)\<rparr>))"

section \<open>Vocabulary of the properties\<close>

text \<open>
  The number of bytes a frame's flags byte asks for: the flags byte, six bytes of
  systolic, diastolic and mean arterial pressure, two more when bit 2 is set and two
  more when bit 4 is set.
\<close>

definition required_length :: "int \<Rightarrow> nat" where
  "required_length fl =
     1 + 6 + (if fl AND 0x04 \<noteq> 0 then 2 else 0) + (if fl AND 0x10 \<noteq> 0 then 2 else 0)"

text \<open>
  Modelled from the spec: the reference SFLOAT encoder has no counterpart in the
  source. It builds the 16-bit word whose bits 0-11 hold the mantissa and bits 12-15
  the exponent, both in two's complement within their width, and writes it little-endian.
\<close>

definition encode_sfloat :: "int \<Rightarrow> int \<Rightarrow> byte list" where
  "encode_sfloat mantissa exponent =
     (let w = mantissa mod 4096 + 4096 * (exponent mod 16)
      in [word_of_int (w mod 256), word_of_int (w div 256)])"

text \<open>The class name of an exception, \<open>type(e).__name__\<close>.\<close>

fun exn_class :: "exn \<Rightarrow> string" where
  "exn_class IndexError = ''IndexError''"
| "exn_class ValueError = ''ValueError''"
| "exn_class TimeoutError = ''TimeoutError''"
| "exn_class (BleakError _) = ''BleakError''"
| "exn_class (OSError _) = ''OSError''"
| "exn_class (QardioConnectionError _ _) = ''QardioConnectionError''"
| "exn_class (QardioMeasurementAborted _) = ''QardioMeasurementAborted''"

text \<open>
  A notification ends the wait when its handler sets the event, or raises while the
  transport hands handler exceptions on. The handlers decide both from the payload
  alone (lemma \<open>dispatch_terminating\<close> below), so the test runs them on the initial
  variables.
\<close>

definition terminating :: "bool \<Rightarrow> channel \<times> byte list \<Rightarrow> bool" where
  "terminating prop n =
     (case dispatch False (fst n) (snd n) init_session of
        (s', e) \<Rightarrow> event s' \<or> (prop \<and> e \<noteq> None))"

text \<open>A transport on which connecting, subscribing and the start write all succeed.\<close>

definition link_up :: "transport \<Rightarrow> bool" where
  "link_up tr = (connect_raises tr = None \<and> notify_meas_raises tr = None \<and>
                 notify_control_raises tr = None \<and> write_raises tr = None)"

definition quiet_transport :: "(channel \<times> byte list) list \<Rightarrow> bool \<Rightarrow> transport" where
  "quiet_transport ns prop =
     \<lparr>connect_raises = None, notify_meas_raises = None, notify_control_raises = None,
      write_raises = None, inbound = ns, propagates = prop\<rparr>"

section \<open>Slices and SFLOAT fields\<close>

lemma slice2: "b = a + 2 \<Longrightarrow> b \<le> length xs \<Longrightarrow> slice_list xs a b = [xs ! a, xs ! Suc a]"
proof -
  assume b: "b = a + 2" and le: "b \<le> length xs"
  have "take 2 (drop a xs) = [drop a xs ! 0, drop a xs ! 1]"
    using b le by (intro nth_equalityI) (auto simp: less_Suc_eq numeral_2_eq_2)
  then show ?thesis using b le by (simp add: slice_list_def)
qed

lemma length_slice: "length (slice_list xs a b) = min (b - a) (length xs - a)"
  by (simp add: slice_list_def)

lemma parse_sfloat_short: "length raw < 2 \<Longrightarrow> parse_sfloat raw = Inl IndexError"
  by (simp add: parse_sfloat_def)

lemma parse_sfloat_ok: "2 \<le> length raw \<Longrightarrow> \<exists>v. parse_sfloat raw = Inr v"
  by (cases raw) (auto simp: parse_sfloat_def Let_def)

lemma parse_sfloat_slice_ok:
  "b = a + 2 \<Longrightarrow> b \<le> length xs \<Longrightarrow> \<exists>v. parse_sfloat (slice_list xs a b) = Inr v"
  by (rule parse_sfloat_ok) (simp add: length_slice)

lemma parse_sfloat_slice_short:
  "b = a + 2 \<Longrightarrow> length xs < b \<Longrightarrow> parse_sfloat (slice_list xs a b) = Inl IndexError"
  by (rule parse_sfloat_short) (simp add: length_slice)

section \<open>When the frame parser raises\<close>

text \<open>
  The parser raises exactly when an SFLOAT field is cut short: fewer than 7 bytes, or
  fewer than 9 when bit 2 asks for a pulse rate. Bit 4 plays no part in it.
\<close>

lemma parse_bp_short:
  assumes "length data < (if data \<noteq> [] \<and> uint (hd data) AND 0x04 \<noteq> 0 then 9 else 7)"
  shows "parse_bp_notification data = Inl IndexError"
proof (cases data)
  case Nil
  then show ?thesis by (simp add: parse_bp_notification_def)
next
  case (Cons f rest)
  show ?thesis
  proof (cases "length data < 7")
    case True
    consider "length data < 3" | "3 \<le> length data" "length data < 5"
      | "5 \<le> length data" "length data < 7" using True by linarith
    then show ?thesis
    proof cases
      case 1
      then have "parse_sfloat (slice_list data 1 3) = Inl IndexError"
        by (intro parse_sfloat_slice_short) simp_all
      then show ?thesis using Cons by (simp add: parse_bp_notification_def Let_def)
    next
      case 2
      obtain v where "parse_sfloat (slice_list data 1 3) = Inr v"
        using parse_sfloat_slice_ok[of 3 1 data] 2 by auto
      moreover have "parse_sfloat (slice_list data 3 5) = Inl IndexError"
        using 2 by (intro parse_sfloat_slice_short) simp_all
      ultimately show ?thesis using Cons by (simp add: parse_bp_notification_def Let_def)
    next
      case 3
      obtain v where "parse_sfloat (slice_list data 1 3) = Inr v"
        using parse_sfloat_slice_ok[of 3 1 data] 3 by auto
      moreover obtain w where "parse_sfloat (slice_list data 3 5) = Inr w"
        using parse_sfloat_slice_ok[of 5 3 data] 3 by auto
      moreover have "parse_sfloat (slice_list data 5 7) = Inl IndexError"
        using 3 by (intro parse_sfloat_slice_short) simp_all
      ultimately show ?thesis using Cons by (simp add: parse_bp_notification_def Let_def)
    qed
  next
    case False
    then have bit2: "uint f AND 0x04 \<noteq> 0" and lt9: "length data < 9"
      using assms Cons by (auto split: if_splits)
    obtain v where "parse_sfloat (slice_list data 1 3) = Inr v"
      using parse_sfloat_slice_ok[of 3 1 data] False by auto
    moreover obtain w where "parse_sfloat (slice_list data 3 5) = Inr w"
      using parse_sfloat_slice_ok[of 5 3 data] False by auto
    moreover obtain x where "parse_sfloat (slice_list data 5 7) = Inr x"
      using parse_sfloat_slice_ok[of 7 5 data] False by auto
    moreover have "parse_sfloat (slice_list data 7 9) = Inl IndexError"
      using lt9 by (intro parse_sfloat_slice_short) simp_all
    ultimately show ?thesis using Cons bit2 by (simp add: parse_bp_notification_def Let_def)
  qed
qed

lemma parse_bp_long:
  assumes ne: "data \<noteq> []"
    and len: "(if uint (hd data) AND 0x04 \<noteq> 0 then 9 else 7) \<le> length data"
  shows "\<exists>sys dia mp pl.
     parse_sfloat (slice_list data 1 3) = Inr sys \<and>
     parse_sfloat (slice_list data 3 5) = Inr dia \<and>
     parse_sfloat (slice_list data 5 7) = Inr mp \<and>
     (if uint (hd data) AND 0x04 \<noteq> 0 then parse_sfloat (slice_list data 7 9) = Inr pl else True) \<and>
     parse_bp_notification data =
       Inr \<lparr>flags = uint (hd data),
            unit = (if uint (hd data) AND 0x01 \<noteq> 0 then ''kPa'' else ''mmHg''),
            systolic = sys, diastolic = dia, map_val = mp,
            pulse = (if uint (hd data) AND 0x04 \<noteq> 0 then Some pl else None),
            status = (if uint (hd data) AND 0x10 \<noteq> 0
                      then Some (from_bytes_little
                             (if uint (hd data) AND 0x04 \<noteq> 0 then slice_list data 9 11
                              else slice_list data 7 9))
                      else None)\<rparr>"
proof -
  obtain f rest where Cons: "data = f # rest" using ne by (cases data) auto
  have l7: "7 \<le> length data" using len by (auto split: if_splits)
  obtain v where v: "parse_sfloat (slice_list data 1 3) = Inr v"
    using parse_sfloat_slice_ok[of 3 1 data] l7 by auto
  obtain w where w: "parse_sfloat (slice_list data 3 5) = Inr w"
    using parse_sfloat_slice_ok[of 5 3 data] l7 by auto
  obtain x where x: "parse_sfloat (slice_list data 5 7) = Inr x"
    using parse_sfloat_slice_ok[of 7 5 data] l7 by auto
  show ?thesis
  proof (cases "uint f AND 0x04 \<noteq> 0")
    case True
    then have "9 \<le> length data" using len Cons by simp
    then obtain p where p: "parse_sfloat (slice_list data 7 9) = Inr p"
      using parse_sfloat_slice_ok[of 9 7 data] by auto
    have "parse_bp_notification data =
       Inr \<lparr>flags = uint f, unit = (if uint f AND 0x01 \<noteq> 0 then ''kPa'' else ''mmHg''),
            systolic = v, diastolic = w, map_val = x, pulse = Some p,
            status = (if uint f AND 0x10 \<noteq> 0
                      then Some (from_bytes_little (slice_list data 9 11)) else None)\<rparr>"
      using Cons True v w x p by (simp add: parse_bp_notification_def Let_def)
    then show ?thesis using Cons True v w x p by simp
  next
    case False
    have "parse_bp_notification data =
       Inr \<lparr>flags = uint f, unit = (if uint f AND 0x01 \<noteq> 0 then ''kPa'' else ''mmHg''),
            systolic = v, diastolic = w, map_val = x, pulse = None,
            status = (if uint f AND 0x10 \<noteq> 0
                      then Some (from_bytes_little (slice_list data 7 9)) else None)\<rparr>"
      using Cons False v w x by (simp add: parse_bp_notification_def Let_def)
    then show ?thesis using Cons False v w x by simp
  qed
qed

lemma parse_bp_raises_iff:
  "parse_bp_notification data = Inl e \<longleftrightarrow>
     length data < (if data \<noteq> [] \<and> uint (hd data) AND 0x04 \<noteq> 0 then 9 else 7)
     \<and> e = IndexError"
proof (cases "length data < (if data \<noteq> [] \<and> uint (hd data) AND 0x04 \<noteq> 0 then 9 else 7)")
  case True
  then show ?thesis using parse_bp_short[of data] by auto
next
  case False
  then have ne: "data \<noteq> []" by (auto split: if_splits)
  with False have "(if uint (hd data) AND 0x04 \<noteq> 0 then 9 else 7) \<le> length data"
    by (auto split: if_splits)
  from parse_bp_long[OF ne this] obtain m where "parse_bp_notification data = Inr m"
    by blast
  with False show ?thesis by simp
qed


section \<open>What a handler does to the shared variables\<close>

lemma emit_fields [simp]:
  "event (emit sink ev s) = event s"
  "result (emit sink ev s) = result s"
  "aborted_flag (emit sink ev s) = aborted_flag s"
  "aborted_reason (emit sink ev s) = aborted_reason s"
  by (simp_all add: emit_def)

lemma handle_measurement_payload:
  "snd (handle_measurement sink d s) = snd (handle_measurement False d init_session)"
  "event (fst (handle_measurement sink d s)) =
     (event s \<or> event (fst (handle_measurement False d init_session)))"
  by (auto simp: handle_measurement_def Let_def init_session_def split: sum.splits)

lemma handle_control_payload:
  "snd (handle_control sink d s) = snd (handle_control False d init_session)"
  "event (fst (handle_control sink d s)) =
     (event s \<or> event (fst (handle_control False d init_session)))"
  by (simp_all add: handle_control_def Let_def init_session_def
        split: sum.splits option.splits)

lemma handle_measurement_keeps:
  "\<not> event (fst (handle_measurement sink d s)) \<Longrightarrow>
     result (fst (handle_measurement sink d s)) = result s \<and>
     aborted_flag (fst (handle_measurement sink d s)) = aborted_flag s \<and>
     aborted_reason (fst (handle_measurement sink d s)) = aborted_reason s"
  by (auto simp: handle_measurement_def Let_def split: sum.splits if_splits)

lemma handle_control_keeps:
  "result (fst (handle_control sink d s)) = result s \<and>
   aborted_flag (fst (handle_control sink d s)) = aborted_flag s \<and>
   aborted_reason (fst (handle_control sink d s)) = aborted_reason s"
  by (simp add: handle_control_def Let_def split: sum.splits option.splits)

lemma dispatch_terminating:
  assumes "\<not> event s" and "dispatch sink ch d s = (s', e)"
  shows "(event s' \<or> (prop \<and> e \<noteq> None)) = terminating prop (ch, d)"
proof -
  have s': "s' = fst (dispatch sink ch d s)" and e: "e = snd (dispatch sink ch d s)"
    using assms(2) by simp_all
  show ?thesis
    unfolding s' e terminating_def
    using assms(1)
    by (cases ch)
       (simp_all add: dispatch_def case_prod_unfold
          handle_measurement_payload[of sink d s] handle_control_payload[of sink d s])
qed

lemma dispatch_keeps:
  assumes "dispatch sink ch d s = (s', e)" and "\<not> event s'"
  shows "result s' = result s \<and> aborted_flag s' = aborted_flag s
         \<and> aborted_reason s' = aborted_reason s"
proof -
  have s': "s' = fst (dispatch sink ch d s)" using assms(1) by simp
  show ?thesis
    using assms(2) unfolding s'
    by (cases ch) (simp_all add: dispatch_def handle_measurement_keeps handle_control_keeps)
qed

lemma wait_skip:
  assumes "\<not> event s" and "\<forall>n \<in> set pre. \<not> terminating prop n"
  shows "\<exists>s'. \<not> event s' \<and> result s' = result s \<and> aborted_flag s' = aborted_flag s
            \<and> aborted_reason s' = aborted_reason s
            \<and> wait_for_event prop sink (pre @ rest) s = wait_for_event prop sink rest s'"
  using assms
proof (induction pre arbitrary: s)
  case Nil
  then show ?case by auto
next
  case (Cons n pre)
  obtain ch d where n: "n = (ch, d)" by (cases n)
  obtain s1 e where d: "dispatch sink ch d s = (s1, e)" by (cases "dispatch sink ch d s")
  have nt: "\<not> terminating prop (ch, d)" using Cons.prems(2) n by simp
  have "(event s1 \<or> (prop \<and> e \<noteq> None)) = terminating prop (ch, d)"
    using Cons.prems(1) d by (rule dispatch_terminating)
  with nt have ev1: "\<not> event s1" and pe: "\<not> (prop \<and> e \<noteq> None)" by auto
  have keep: "result s1 = result s \<and> aborted_flag s1 = aborted_flag s
         \<and> aborted_reason s1 = aborted_reason s"
    using dispatch_keeps[OF d ev1] .
  have step: "wait_for_event prop sink ((n # pre) @ rest) s
                = wait_for_event prop sink (pre @ rest) s1"
    using Cons.prems(1) d pe n by (cases e) auto
  have "\<forall>n \<in> set pre. \<not> terminating prop n" using Cons.prems(2) by simp
  from Cons.IH[OF ev1 this]
  obtain s' where "\<not> event s'" "result s' = result s1" "aborted_flag s' = aborted_flag s1"
     "aborted_reason s' = aborted_reason s1"
     "wait_for_event prop sink (pre @ rest) s1 = wait_for_event prop sink rest s'"
    by auto
  with keep step show ?case by auto
qed

section \<open>The session on a transport that is up\<close>

lemma measure_async_link_up:
  "link_up tr \<Longrightarrow> measure_async tr sink =
     (case wait_for_event (propagates tr) sink (inbound tr) init_session of
        (s, Some e) \<Rightarrow> (progress_log s, Inl (reraise e))
      | (s, None) \<Rightarrow>
          if aborted_flag s
          then (progress_log s, Inl (QardioMeasurementAborted (aborted_reason s)))
          else (progress_log s, Inr (result s)))"
  by (simp add: measure_async_def link_up_def)

lemma init_fields [simp]:
  "\<not> event init_session" "result init_session = None" "\<not> aborted_flag init_session"
  by (simp_all add: init_session_def)

lemma implicit_abort_long:
  assumes "9 \<le> length data" and "data ! 0 = 0x04" and "data ! 1 = 0xFF"
  shows "handle_measurement sink data s =
           ((emit sink (PhaseEvent ABORTED)
               (s\<lparr>aborted_flag := True, aborted_reason := ''arm movement''\<rparr>))\<lparr>event := True\<rparr>,
            Some (QardioMeasurementAborted ''arm movement''))"
proof -
  have ne: "data \<noteq> []" using assms(1) by auto
  then have hd: "hd data = 0x04" using assms(2) by (simp add: hd_conv_nth)
  have "(if uint (hd data) AND 0x04 \<noteq> 0 then 9 else 7) \<le> length data"
    using assms(1) by (simp add: hd)
  from parse_bp_long[OF ne this] obtain m where "parse_bp_notification data = Inr m" by blast
  then show ?thesis using assms by (simp add: handle_measurement_def Let_def)
qed

lemma wait_for_event_set: "event s \<Longrightarrow> wait_for_event prop sink ns s = (s, None)"
  by (cases ns) auto

lemma wait_for_event_step:
  "\<not> event s \<Longrightarrow> dispatch sink ch d s = (s', e) \<Longrightarrow>
     wait_for_event prop sink ((ch, d) # rest) s =
       (if e \<noteq> None \<and> prop then (s', e) else wait_for_event prop sink rest s')"
  by (cases e) auto

lemma handle_control_abort:
  assumes "decode_vendor data = Inr (Some phase)" and "phase = ABORTED \<or> phase = ERROR"
  shows "handle_control sink data s =
           ((emit sink (PhaseEvent phase) s)\<lparr>event := True\<rparr>,
            Some (QardioMeasurementAborted (str_Phase phase)))"
  using assms by (auto simp: handle_control_def Let_def)



section \<open>Masks, bits and the SFLOAT word\<close>

lemma and_push_bit_1_iff: "(st :: int) AND push_bit b 1 \<noteq> 0 \<longleftrightarrow> bit st b"
  by (simp add: bit_iff_and_push_bit_not_eq_0)

lemma and_4_iff: "(fl :: int) AND 0x04 \<noteq> 0 \<longleftrightarrow> bit fl 2"
  using and_push_bit_1_iff[of fl 2] by simp

lemma and_16_iff: "(fl :: int) AND 0x10 \<noteq> 0 \<longleftrightarrow> bit fl 4"
  using and_push_bit_1_iff[of fl 4] by simp

lemma and_1_iff: "(fl :: int) AND 0x01 \<noteq> 0 \<longleftrightarrow> bit fl 0"
  using and_push_bit_1_iff[of fl 0] by simp

lemma take_or_push_drop: "take_bit 8 (w :: int) OR push_bit 8 (drop_bit 8 w) = w"
proof (rule bit_eqI)
  fix n
  show "bit (take_bit 8 w OR push_bit 8 (drop_bit 8 w)) n = bit w n"
    by (cases "n < 8") (simp_all add: bit_simps)
qed

lemma or_bytes: 
  assumes "0 \<le> w" "w < 65536"
  shows "uint (word_of_int (w mod 256) :: byte) OR push_bit 8 (uint (word_of_int (w div 256) :: byte)) = (w :: int)"
proof -
  have lo: "uint (word_of_int (w mod 256) :: byte) = take_bit 8 w"
    by (simp add: uint_word_of_int take_bit_eq_mod)
  have "w div 256 < 256" using assms by simp
  moreover have "0 \<le> w div 256" using assms by simp
  ultimately have hi: "uint (word_of_int (w div 256) :: byte) = drop_bit 8 w"
    by (simp add: uint_word_of_int drop_bit_eq_div)
  show ?thesis using take_or_push_drop[of w] by (simp only: lo hi)
qed

lemma and_0FFF: "(w :: int) AND 0x0FFF = w mod 4096"
proof -
  have "w AND mask 12 = take_bit 12 w" by (simp add: take_bit_eq_mask)
  then show ?thesis by (simp add: mask_eq_exp_minus_1 take_bit_eq_mod)
qed

lemma and_000F: "(w :: int) AND 0x000F = w mod 16"
proof -
  have "w AND mask 4 = take_bit 4 w" by (simp add: take_bit_eq_mask)
  then show ?thesis by (simp add: mask_eq_exp_minus_1 take_bit_eq_mod)
qed

lemma python_product_exact:
  "0 \<le> e \<Longrightarrow> num_value (times_int m (pow10 e)) = of_int m * 10 powi e"
  by (simp add: pow10_def power_int_def)

text \<open>
  The rounding picks the right binade: when \<open>x\<close> lies between \<open>2\<close> to the \<open>e + 52\<close>
  and \<open>2\<close> to the \<open>e + 53\<close>, its unit in the last place is \<open>2\<close> to the \<open>e\<close>.
\<close>

lemma bit_length_eqI: "2 ^ k \<le> n \<Longrightarrow> n < 2 ^ Suc k \<Longrightarrow> bit_length n = Suc k"
proof (induction k arbitrary: n)
  case 0
  then have "n = 1" by simp
  then show ?case by (simp add: bit_length.simps)
next
  case (Suc k)
  have "2 ^ k \<le> n div 2" using Suc.prems(1) by simp
  moreover have "n div 2 < 2 ^ Suc k" using Suc.prems(2) by simp
  ultimately have "bit_length (n div 2) = Suc k" by (rule Suc.IH)
  moreover have "(0 :: int) < 2 ^ Suc k" by simp
  then have "\<not> n \<le> 0" using Suc.prems(1) by linarith
  ultimately show ?case by (subst bit_length.simps) simp
qed

lemma floor_rat_numeral:
  "\<lfloor>(numeral a :: rat) / numeral b\<rfloor> = numeral a div numeral b"
  using floor_divide_of_int_eq[of "numeral a" "numeral b", where ?'a = rat] by simp

lemma ulp_exponent_eqI:
  assumes lo: "2 powi (e + 52) \<le> \<bar>x\<bar>" and hi: "\<bar>x\<bar> < 2 powi (e + 53)"
    and normal: "- 1074 \<le> e"
  shows "ulp_exponent x = e"
proof -
  define k where "k = nat (e + 1126)"
  have ke: "int k = e + 1126" using normal by (simp add: k_def)
  define y where "y = \<bar>x\<bar> * 2 ^ 1074"
  have p1: "(2 :: rat) powi (e + 52) * 2 ^ 1074 = 2 ^ k"
  proof -
    have "(2 :: rat) powi (e + 52) * 2 ^ 1074 = 2 powi (e + 52) * 2 powi 1074" by simp
    also have "\<dots> = 2 powi (e + 52 + 1074)" by (simp add: power_int_add)
    also have "e + 52 + 1074 = int k" using ke by linarith
    finally show ?thesis by (simp only: power_int_of_nat)
  qed
  have p2: "(2 :: rat) powi (e + 53) * 2 ^ 1074 = 2 ^ Suc k"
  proof -
    have "(2 :: rat) powi (e + 53) * 2 ^ 1074 = 2 powi (e + 53) * 2 powi 1074" by simp
    also have "\<dots> = 2 powi (e + 53 + 1074)" by (simp add: power_int_add)
    also have "e + 53 + 1074 = int (Suc k)" using ke by simp
    finally show ?thesis by (simp only: power_int_of_nat)
  qed
  have ylo: "2 ^ k \<le> y"
    using lo p1 unfolding y_def by (metis mult_right_mono zero_le_numeral zero_le_power)
  have yhi: "y < 2 ^ Suc k"
    using hi p2 unfolding y_def
    by (metis mult_strict_right_mono zero_less_numeral zero_less_power)
  have "(of_int (2 ^ k) :: rat) \<le> y" using ylo by simp
  then have flo: "2 ^ k \<le> \<lfloor>y\<rfloor>" by (simp only: le_floor_iff)
  have "y < of_int (2 ^ Suc k)" using yhi by simp
  then have fhi: "\<lfloor>y\<rfloor> < 2 ^ Suc k" by (simp only: floor_less_iff)
  have "bit_length \<lfloor>y\<rfloor> = Suc k" using flo fhi by (rule bit_length_eqI)
  then show ?thesis using ke normal by (simp add: ulp_exponent_def y_def)
qed

text \<open>The three roundings behind \<open>3 * (10 ** -1)\<close>.\<close>

lemma round_double_3: "round_double 3 = 3"
proof -
  have u: "ulp_exponent 3 = - 51"
    by (rule ulp_exponent_eqI) simp_all
  show ?thesis
    by (simp add: round_double_def u round_half_even_def Let_def power_int_minus)
qed

lemma round_double_tenth: "round_double (1 / 10) = 7205759403792794 / 2 ^ 56"
proof -
  have u: "ulp_exponent (1 / 10) = - 56"
    by (rule ulp_exponent_eqI) (simp_all add: power_int_minus)
  show ?thesis
    by (simp add: round_double_def u round_half_even_def Let_def power_int_minus
          floor_rat_numeral)
qed

lemma round_double_three_tenths:
  "round_double (10808639105689191 / 36028797018963968) = 5404319552844596 / 2 ^ 54"
proof -
  have u: "ulp_exponent (10808639105689191 / 36028797018963968) = - 54"
    by (rule ulp_exponent_eqI) (simp_all add: power_int_minus)
  show ?thesis
    by (simp add: round_double_def u round_half_even_def Let_def power_int_minus
          floor_rat_numeral)
qed

lemma signed12: "- 2048 \<le> m \<Longrightarrow> m \<le> 2047 \<Longrightarrow>
   (if m mod 4096 \<ge> 0x0800 then m mod 4096 - 0x1000 else m mod 4096) = (m :: int)"
proof -
  assume lo: "- 2048 \<le> m" and hi: "m \<le> 2047"
  show ?thesis
  proof (cases "0 \<le> m")
    case True
    then have "m mod 4096 = m" using hi by simp
    then show ?thesis using hi by simp
  next
    case False
    have "(m + 4096) mod 4096 = m + 4096" using lo False by (intro mod_pos_pos_trivial) simp_all
    then have "m mod 4096 = m + 4096" by simp
    then show ?thesis using lo by simp
  qed
qed

lemma signed4: "- 8 \<le> e \<Longrightarrow> e \<le> 7 \<Longrightarrow>
   (if e mod 16 \<ge> 0x0008 then e mod 16 - 0x0010 else e mod 16) = (e :: int)"
proof -
  assume lo: "- 8 \<le> e" and hi: "e \<le> 7"
  show ?thesis
  proof (cases "0 \<le> e")
    case True
    then have "e mod 16 = e" using hi by simp
    then show ?thesis using hi by simp
  next
    case False
    have "(e + 16) mod 16 = e + 16" using lo False by (intro mod_pos_pos_trivial) simp_all
    then have "e mod 16 = e + 16" by simp
    then show ?thesis using lo by simp
  qed
qed

section \<open>The claims\<close>

text \<open>
  C2. The claim: the frame parser fails exactly when the input holds fewer bytes than
  its flags byte requires, in particular when bit 4 demands a status field the bytes
  cannot supply. The source reads the status with \<open>int.from_bytes\<close> on a slice_list, which
  accepts a slice_list of any length, while the SFLOAT fields before it raise when cut
  short: a 7-byte frame with flags \<open>0x10\<close> (9 bytes required) parses, with status 0.
\<close>

theorem parse_truncated_status:
  "required_length 0x10 = 9 \<and>
   parse_bp_notification [0x10, 0x78, 0x00, 0x50, 0x00, 0x5D, 0x00] =
     Inr \<lparr>flags = 16, unit = ''mmHg'', systolic = 120, diastolic = 80, map_val = 93,
          pulse = None, status = Some 0\<rparr>"
  by (simp add: required_length_def parse_bp_notification_def parse_sfloat_def slice_list_def
        pow10_def)

text \<open>
  C3. The claim: the phase decoder yields "no phase", without raising, for every
  input that is not the marker \<open>0xF2\<close> followed by one of the six codes. The source
  calls \<open>Phase(raw[1])\<close>, which raises \<open>ValueError\<close> on an unknown code; the control
  handler raises with it.
\<close>

theorem decode_vendor_unknown_code_raises:
  "decode_vendor [0xF2, 0x09] = Inl ValueError \<and>
   handle_control sink [0xF2, 0x09] s = (s, Some ValueError)"
  by (simp add: handle_control_def decode_vendor_def Phase_of_def)

text \<open>What the decoder does on every input: the three outcomes, with their conditions.\<close>

lemma decode_vendor_Some_iff:
  "decode_vendor raw = Inr (Some p) \<longleftrightarrow>
     length raw = 2 \<and> raw ! 0 = 0xF2 \<and> Phase_of (uint (raw ! 1)) = Inr p"
  by (auto simp: decode_vendor_def split: sum.splits)

lemma decode_vendor_None_iff:
  "decode_vendor raw = Inr None \<longleftrightarrow> \<not> (length raw = 2 \<and> raw ! 0 = 0xF2)"
  by (auto simp: decode_vendor_def split: sum.splits)

lemma decode_vendor_raises_iff:
  "decode_vendor raw = Inl e \<longleftrightarrow>
     length raw = 2 \<and> raw ! 0 = 0xF2 \<and> uint (raw ! 1) \<notin> {1..6} \<and> e = ValueError"
  by (auto simp: decode_vendor_def Phase_of_def split: sum.splits if_splits)

text \<open>
  C9. The condition decoder lists the names of the set bits 0 to 3 in ascending bit
  order; it is a total function; status 0 gives the empty list, \<open>0b1011\<close> the three
  names of bits 0, 1 and 3; an absent status reaches it as 0 and gives the empty list.
\<close>

theorem decode_conditions_bits:
  "decode_conditions st =
     (if bit st 0 then [''body_movement''] else []) @
     (if bit st 1 then [''cuff_too_loose''] else []) @
     (if bit st 2 then [''irregular_pulse''] else []) @
     (if bit st 3 then [''pulse_rate_out_of_range''] else [])
   \<and> decode_conditions 0 = []
   \<and> decode_conditions 11 = [''body_movement'', ''cuff_too_loose'', ''pulse_rate_out_of_range'']
   \<and> decode_conditions (status_or_0 None) = []
   \<and> decode_conditions (status_or_0 (Some (f\<lparr>status := None\<rparr>))) = []"
proof -
  have gen: "\<And>v. decode_conditions v =
     (if bit v 0 then [''body_movement''] else []) @
     (if bit v 1 then [''cuff_too_loose''] else []) @
     (if bit v 2 then [''irregular_pulse''] else []) @
     (if bit v 3 then [''pulse_rate_out_of_range''] else [])"
    unfolding decode_conditions_def mapping_def and_push_bit_1_iff by simp
  have z: "decode_conditions 0 = []" by (simp add: gen)
  have e: "decode_conditions 11 = [''body_movement'', ''cuff_too_loose'', ''pulse_rate_out_of_range'']"
    by (simp add: decode_conditions_def mapping_def)
  show ?thesis using gen[of st] z e by (simp add: status_or_0_def)
qed

text \<open>
  C1. The claim: a measurement payload of at least 5 bytes that starts \<open>0x04, 0xFF\<close>
  yields the abort "arm movement", before any parsing step can fail. The handler
  tests \<open>len(data) >= 5\<close>, but only after \<open>parse_bp_notification(data)\<close>, which needs
  7 bytes for the three pressures and, flags \<open>0x04\<close> having bit 2 set, 9 for the pulse
  rate: on a payload of 5 to 8 bytes the parser raises \<open>IndexError\<close> and the abort
  branch is never reached. The session then ends with that \<open>IndexError\<close>, or, when
  the transport keeps handler exceptions to itself, with the timeout. From 9 bytes on
  the abort branch runs (lemma \<open>implicit_abort_long\<close>).
\<close>

theorem implicit_abort_short_raises:
  "handle_measurement sink [0x04, 0xFF, 0x00, 0x01, 0x00] s = (s, Some IndexError) \<and>
   snd (measure_async (quiet_transport [(BP_MEAS, [0x04, 0xFF, 0x00, 0x01, 0x00])] True) sink)
     = Inl IndexError \<and>
   snd (measure_async (quiet_transport [(BP_MEAS, [0x04, 0xFF, 0x00, 0x01, 0x00])] False) sink)
     = Inl (QardioConnectionError ''cannot connect'' TimeoutError)"
proof -
  have p: "parse_bp_notification [0x04, 0xFF, 0x00, 0x01, 0x00] = Inl IndexError"
    by (rule parse_bp_short) simp
  have h: "\<And>s. handle_measurement sink [0x04, 0xFF, 0x00, 0x01, 0x00] s = (s, Some IndexError)"
    by (simp add: handle_measurement_def p)
  show ?thesis
    by (simp add: h measure_async_def quiet_transport_def dispatch_def reraise_def)
qed

text \<open>
  C6 (as stated). The claim: a timeout, a connection failure and an abort surface as
  three distinct typed failures. The \<open>except\<close> clause of \<open>_measure_async\<close> turns
  \<open>asyncio.TimeoutError\<close> and \<open>BleakError\<close> alike into
  \<open>QardioConnectionError("cannot connect")\<close>: a session that times out and one that
  cannot connect raise the same class with the same message, and \<open>Plugin.measure\<close>
  does the same on both.
\<close>

theorem timeout_same_as_connection_failure_counterexample:
  "snd (measure_async (quiet_transport [] False) False)
      = Inl (QardioConnectionError ''cannot connect'' TimeoutError) \<and>
   snd (measure_async ((quiet_transport [] False)\<lparr>connect_raises := Some (BleakError ''not found'')\<rparr>) False)
      = Inl (QardioConnectionError ''cannot connect'' (BleakError ''not found'')) \<and>
   exn_class (QardioConnectionError ''cannot connect'' TimeoutError)
      = exn_class (QardioConnectionError ''cannot connect'' (BleakError ''not found'')) \<and>
   Plugin_measure (quiet_transport [] False) False (Inr [87]) ''t''
      = Plugin_measure ((quiet_transport [] False)\<lparr>connect_raises := Some (BleakError ''not found'')\<rparr>)
          False (Inr [87]) ''t''"
  by (simp add: Plugin_measure_def measure_async_def quiet_transport_def reraise_def init_session_def)

text \<open>
  C6 (amended). When connecting, subscribing and the start write succeed and no
  notification ends the wait, the session raises
  \<open>QardioConnectionError("cannot connect")\<close> caused by the \<open>TimeoutError\<close>, and
  \<open>Plugin.measure\<close> prints \<open>[FAIL] cannot connect\<close> and returns \<open>None\<close>. A transport
  failure caught by the same clause raises the same class with the same message and its
  own cause. Neither is a \<open>QardioMeasurementAborted\<close>.
\<close>

theorem timeout_is_connection_error:
  assumes up: "link_up tr"
    and quiet: "\<forall>n \<in> set (inbound tr). \<not> terminating (propagates tr) n"
  shows "snd (measure_async tr sink)
           = Inl (QardioConnectionError ''cannot connect'' TimeoutError)
       \<and> returned (Plugin_measure tr sink rd now) = Inr None
       \<and> printed (Plugin_measure tr sink rd now) = [''[FAIL] cannot connect'']
       \<and> (\<forall>c. caught_as_connection c \<longrightarrow>
            snd (measure_async (tr\<lparr>connect_raises := Some c\<rparr>) sink)
              = Inl (QardioConnectionError ''cannot connect'' c))
       \<and> (\<forall>r. snd (measure_async tr sink) \<noteq> Inl (QardioMeasurementAborted r))"
proof -
  obtain s' where w: "wait_for_event (propagates tr) sink (inbound tr @ []) init_session
                     = wait_for_event (propagates tr) sink [] s'" and ev: "\<not> event s'"
    using wait_skip[OF init_fields(1) quiet, of sink "[]"] by blast
  have run: "measure_async tr sink
        = (progress_log s', Inl (QardioConnectionError ''cannot connect'' TimeoutError))"
    using w ev by (simp add: measure_async_link_up[OF up] reraise_def)
  have conn: "\<And>c. caught_as_connection c \<Longrightarrow>
            snd (measure_async (tr\<lparr>connect_raises := Some c\<rparr>) sink)
              = Inl (QardioConnectionError ''cannot connect'' c)"
    by (simp add: measure_async_def reraise_def)
  show ?thesis using run conn by (simp add: Plugin_measure_def)
qed

theorem timeout_is_connection_error_witness:
  "link_up (quiet_transport [(CONTROL, [0xF2, 0x01])] False)
   \<and> \<not> terminating False (CONTROL, [0xF2, 0x01])
   \<and> snd (measure_async (quiet_transport [(CONTROL, [0xF2, 0x01])] False) True)
           = Inl (QardioConnectionError ''cannot connect'' TimeoutError)
   \<and> returned (Plugin_measure (quiet_transport [(CONTROL, [0xF2, 0x01])] False) True (Inr [87]) ''t'')
       = Inr None"
proof -
  have up: "link_up (quiet_transport [(CONTROL, [0xF2, 0x01])] False)"
    by (simp add: link_up_def quiet_transport_def)
  have nt: "\<not> terminating False (CONTROL, [0xF2, 0x01])"
    by (simp add: terminating_def dispatch_def handle_control_def decode_vendor_def
          Phase_of_def emit_def init_session_def)
  have q: "\<forall>n \<in> set (inbound (quiet_transport [(CONTROL, [0xF2, 0x01])] False)).
             \<not> terminating (propagates (quiet_transport [(CONTROL, [0xF2, 0x01])] False)) n"
    using nt by (simp add: quiet_transport_def)
  show ?thesis
    using timeout_is_connection_error[OF up q, of True "Inr [87]" "''t''"] up nt by simp
qed

text \<open>
  C7. The claim: a control notification that decodes to the Aborted or the Error phase
  ends the session in the matching terminal state, carrying the phase's string form as
  the reason. \<open>handle_control\<close> sets the event and raises
  \<open>QardioMeasurementAborted(str(phase))\<close> inside the notification callback, but it never
  sets \<open>aborted["flag"]\<close>, the only thing \<open>_measure_async\<close> tests once the wait is over;
  the implicit-abort branch of \<open>handle_measurement\<close> does set it. The callback's
  exception stays with the transport, so on \<open>0xF2, 0x05\<close> (and on \<open>0xF2, 0x06\<close>) the
  session returns its empty result, and \<open>Plugin.measure\<close> prints no failure line, reads
  the battery and returns a row without a reading.
\<close>

theorem control_abort_returns_row:
  "handle_control False [0xF2, 0x05] init_session =
     (init_session\<lparr>event := True\<rparr>, Some (QardioMeasurementAborted ''Phase.ABORTED'')) \<and>
   snd (measure_async (quiet_transport [(CONTROL, [0xF2, 0x05])] False) False) = Inr None \<and>
   snd (measure_async (quiet_transport [(CONTROL, [0xF2, 0x06])] False) False) = Inr None \<and>
   Plugin_measure (quiet_transport [(CONTROL, [0xF2, 0x05])] False) False (Inr [87])
       ''2024-05-01 10:00:00'' =
     \<lparr>printed = [], battery_reads = 1, progress_calls = [],
      returned = Inr (Some \<lparr>timestamp = ''2024-05-01 10:00:00'', reading = None,
                              battery = 87, conditions = []\<rparr>)\<rparr>"
  by (simp add: Plugin_measure_def measure_async_def quiet_transport_def dispatch_def
        handle_control_def decode_vendor_def Phase_of_def emit_def init_session_def
        read_char_async_def status_or_0_def decode_conditions_def mapping_def)

text \<open>
  The same on every transport that is up and keeps handler exceptions to itself: when
  nothing ends the wait before a control notification that decodes to the Aborted or the
  Error phase, the session returns the empty result.
\<close>

lemma control_abort_swallowed:
  assumes dec: "decode_vendor data = Inr (Some phase)"
    and ph: "phase = ABORTED \<or> phase = ERROR"
    and up: "link_up tr" and sw: "\<not> propagates tr"
    and inb: "inbound tr = pre @ (CONTROL, data) # rest"
    and q: "\<forall>n \<in> set pre. \<not> terminating False n"
  shows "snd (measure_async tr sink) = Inr None"
proof -
  obtain s' where ev: "\<not> event s'" and fl: "aborted_flag s' = aborted_flag init_session"
    and rs: "result s' = result init_session"
    and w: "wait_for_event False sink (pre @ (CONTROL, data) # rest) init_session
              = wait_for_event False sink ((CONTROL, data) # rest) s'"
    using wait_skip[OF init_fields(1) q, of sink "(CONTROL, data) # rest"] by blast
  let ?s = "(emit sink (PhaseEvent phase) s')\<lparr>event := True\<rparr>"
  have d: "dispatch sink CONTROL data s' =
             (?s, Some (QardioMeasurementAborted (str_Phase phase)))"
    using handle_control_abort[OF dec ph] by (simp add: dispatch_def)
  have "wait_for_event False sink ((CONTROL, data) # rest) s'
          = wait_for_event False sink rest ?s"
    using wait_for_event_step[OF ev d, of False rest] by simp
  also have "\<dots> = (?s, None)" by (rule wait_for_event_set) simp
  finally have w2: "wait_for_event False sink ((CONTROL, data) # rest) s' = (?s, None)" .
  have "\<not> aborted_flag ?s" and "result ?s = None" using fl rs by simp_all
  then show ?thesis
    using w w2 inb sw by (simp add: measure_async_link_up[OF up])
qed




text \<open>
  C10. Whenever the session raises \<open>QardioConnectionError\<close> or
  \<open>QardioMeasurementAborted\<close>, \<open>Plugin.measure\<close> catches it, prints \<open>[FAIL]\<close> followed
  by the exception's message, issues no battery read and returns \<open>None\<close>.
\<close>

theorem measure_catches_session_failure:
  assumes "snd (measure_async tr sink) = Inl e"
    and "e = QardioConnectionError msg cause \<or> e = QardioMeasurementAborted msg"
  shows "returned (Plugin_measure tr sink rd now) = Inr None
       \<and> printed (Plugin_measure tr sink rd now) = [''[FAIL] '' @ msg]
       \<and> battery_reads (Plugin_measure tr sink rd now) = 0"
proof -
  obtain pl where "measure_async tr sink = (pl, Inl e)"
    using assms(1) by (cases "measure_async tr sink") auto
  then show ?thesis using assms(2) by (auto simp: Plugin_measure_def)
qed

theorem measure_catches_session_failure_witness:
  "snd (measure_async (quiet_transport [] False) False)
     = Inl (QardioConnectionError ''cannot connect'' TimeoutError)
   \<and> returned (Plugin_measure (quiet_transport [] False) False (Inr [87]) ''t'') = Inr None
   \<and> printed (Plugin_measure (quiet_transport [] False) False (Inr [87]) ''t'')
       = [''[FAIL] cannot connect'']
   \<and> battery_reads (Plugin_measure (quiet_transport [] False) False (Inr [87]) ''t'') = 0"
proof -
  have s: "snd (measure_async (quiet_transport [] False) False)
     = Inl (QardioConnectionError ''cannot connect'' TimeoutError)"
    by (simp add: measure_async_def quiet_transport_def init_session_def reraise_def)
  have d: "QardioConnectionError ''cannot connect'' TimeoutError
             = QardioConnectionError ''cannot connect'' TimeoutError
           \<or> QardioConnectionError ''cannot connect'' TimeoutError
             = QardioMeasurementAborted ''cannot connect''" by simp
  show ?thesis
    using measure_catches_session_failure[OF s d, of "Inr [87]" "''t''"] s by simp
qed

text \<open>
  C4. For every frame that is as long as its flags byte requires, the parser returns
  a frame whose flags are byte 0, whose unit is \<open>kPa\<close> iff bit 0 is set and \<open>mmHg\<close>
  otherwise, whose systolic, diastolic and mean arterial pressure are the SFLOATs at
  bytes 1-2, 3-4 and 5-6, whose pulse is the SFLOAT at bytes 7-8 iff bit 2 is set and
  absent otherwise, and whose status is the little-endian 16-bit value of the next two
  bytes iff bit 4 is set and absent otherwise.
\<close>

theorem parse_bp_notification_fields:
  assumes len: "required_length (uint (data ! 0)) \<le> length data"
  shows "\<exists>m. parse_bp_notification data = Inr m
     \<and> flags m = uint (data ! 0)
     \<and> unit m = (if bit (flags m) 0 then ''kPa'' else ''mmHg'')
     \<and> parse_sfloat [data ! 1, data ! 2] = Inr (systolic m)
     \<and> parse_sfloat [data ! 3, data ! 4] = Inr (diastolic m)
     \<and> parse_sfloat [data ! 5, data ! 6] = Inr (map_val m)
     \<and> (if bit (flags m) 2
         then \<exists>p. pulse m = Some p \<and> parse_sfloat [data ! 7, data ! 8] = Inr p
         else pulse m = None)
     \<and> (if bit (flags m) 4
         then status m = Some (if bit (flags m) 2
                               then uint (data ! 9) + 256 * uint (data ! 10)
                               else uint (data ! 7) + 256 * uint (data ! 8))
         else status m = None)"
proof -
  let ?fl = "uint (data ! 0)"
  have l7: "7 \<le> length data" using len by (simp add: required_length_def)
  then have ne: "data \<noteq> []" by auto
  then have hd: "hd data = data ! 0" by (simp add: hd_conv_nth)
  have l9: "bit ?fl 2 \<Longrightarrow> 9 \<le> length data"
    using len by (simp add: required_length_def and_4_iff)
  have lst: "bit ?fl 4 \<Longrightarrow> (if bit ?fl 2 then 11 else 9) \<le> length data"
    using len by (auto simp: required_length_def and_4_iff and_16_iff split: if_splits)
  have len': "(if uint (hd data) AND 0x04 \<noteq> 0 then 9 else 7) \<le> length data"
    using l7 l9 by (simp add: hd and_4_iff)
  from parse_bp_long[OF ne len'] obtain sys dia mp pl where
    s1: "parse_sfloat (slice_list data 1 3) = Inr sys" and
    s2: "parse_sfloat (slice_list data 3 5) = Inr dia" and
    s3: "parse_sfloat (slice_list data 5 7) = Inr mp" and
    s4: "bit ?fl 2 \<Longrightarrow> parse_sfloat (slice_list data 7 9) = Inr pl" and
    p: "parse_bp_notification data =
       Inr \<lparr>flags = ?fl,
            unit = (if bit ?fl 0 then ''kPa'' else ''mmHg''),
            systolic = sys, diastolic = dia, map_val = mp,
            pulse = (if bit ?fl 2 then Some pl else None),
            status = (if bit ?fl 4
                      then Some (from_bytes_little
                             (if bit ?fl 2 then slice_list data 9 11 else slice_list data 7 9))
                      else None)\<rparr>"
    unfolding hd and_4_iff and_16_iff and_1_iff by (auto split: if_splits)
  have sl1: "slice_list data 1 3 = [data ! 1, data ! 2]"
    using slice2[of 3 1 data] l7 by (simp add: numeral_2_eq_2)
  have sl3: "slice_list data 3 5 = [data ! 3, data ! 4]"
    using slice2[of 5 3 data] l7 by simp
  have sl5: "slice_list data 5 7 = [data ! 5, data ! 6]"
    using slice2[of 7 5 data] l7 by simp
  have sl7: "9 \<le> length data \<Longrightarrow> slice_list data 7 9 = [data ! 7, data ! 8]"
    using slice2[of 9 7 data] by simp
  have sl9: "11 \<le> length data \<Longrightarrow> slice_list data 9 11 = [data ! 9, data ! 10]"
    using slice2[of 11 9 data] by simp
  let ?m = "\<lparr>flags = ?fl,
            unit = (if bit ?fl 0 then ''kPa'' else ''mmHg''),
            systolic = sys, diastolic = dia, map_val = mp,
            pulse = (if bit ?fl 2 then Some pl else None),
            status = (if bit ?fl 4
                      then Some (from_bytes_little
                             (if bit ?fl 2 then slice_list data 9 11 else slice_list data 7 9))
                      else None)\<rparr>"
  have pu: "(if bit (flags ?m) 2
         then \<exists>p. pulse ?m = Some p \<and> parse_sfloat [data ! 7, data ! 8] = Inr p
         else pulse ?m = None)"
    using s4 sl7 l9 by simp
  have st: "(if bit (flags ?m) 4
         then status ?m = Some (if bit (flags ?m) 2
                               then uint (data ! 9) + 256 * uint (data ! 10)
                               else uint (data ! 7) + 256 * uint (data ! 8))
         else status ?m = None)"
    using lst sl7 sl9 by (auto split: if_splits)
  have "parse_bp_notification data = Inr ?m
     \<and> flags ?m = uint (data ! 0)
     \<and> unit ?m = (if bit (flags ?m) 0 then ''kPa'' else ''mmHg'')
     \<and> parse_sfloat [data ! 1, data ! 2] = Inr (systolic ?m)
     \<and> parse_sfloat [data ! 3, data ! 4] = Inr (diastolic ?m)
     \<and> parse_sfloat [data ! 5, data ! 6] = Inr (map_val ?m)"
    using p s1 s2 s3 sl1 sl3 sl5 by simp
  with pu st show ?thesis by blast
qed

theorem parse_bp_notification_fields_witness:
  "required_length (uint ([0x15, 0x78, 0x00, 0x50, 0x00, 0x5D, 0x00, 0x48, 0x00, 0x0B, 0x01] ! 0 :: byte))
      \<le> length [0x15, 0x78, 0x00, 0x50, 0x00, 0x5D, 0x00, 0x48, 0x00, 0x0B, 0x01 :: byte]
   \<and> parse_bp_notification [0x15, 0x78, 0x00, 0x50, 0x00, 0x5D, 0x00, 0x48, 0x00, 0x0B, 0x01] =
       Inr \<lparr>flags = 21, unit = ''kPa'', systolic = 120, diastolic = 80, map_val = 93,
            pulse = Some 72, status = Some 267\<rparr>"
proof -
  let ?d = "[0x15, 0x78, 0x00, 0x50, 0x00, 0x5D, 0x00, 0x48, 0x00, 0x0B, 0x01] :: byte list"
  have len: "required_length (uint (?d ! 0)) \<le> length ?d"
    by (simp add: required_length_def)
  have b: "bit (21 :: int) 0" "bit (21 :: int) 2" "bit (21 :: int) 4"
    by (simp_all add: bit_iff_odd)
  have sf: "parse_sfloat [0x78, 0x00] = Inr 120" "parse_sfloat [0x50, 0x00] = Inr 80"
    "parse_sfloat [0x5D, 0x00] = Inr 93" "parse_sfloat [0x48, 0x00] = Inr 72"
    by (simp_all add: parse_sfloat_def pow10_def)
  from parse_bp_notification_fields[OF len] obtain m where
    "parse_bp_notification ?d = Inr m" "flags m = 21" 
    "unit m = (if bit (flags m) 0 then ''kPa'' else ''mmHg'')"
    "Inr 120 = (Inr (systolic m) :: exn + rat)" "Inr 80 = (Inr (diastolic m) :: exn + rat)"
    "Inr 93 = (Inr (map_val m) :: exn + rat)"
    "(if bit (flags m) 2 then \<exists>p. pulse m = Some p \<and> Inr 72 = (Inr p :: exn + rat)
      else pulse m = None)"
    "(if bit (flags m) 4
         then status m = Some (if bit (flags m) 2
                               then uint (?d ! 9) + 256 * uint (?d ! 10)
                               else uint (?d ! 7) + 256 * uint (?d ! 8))
         else status m = None)"
    unfolding sf[symmetric] by (auto simp: sf)
  then have "m = \<lparr>flags = 21, unit = ''kPa'', systolic = 120, diastolic = 80, map_val = 93,
            pulse = Some 72, status = Some 267\<rparr>"
    using b by (cases m) auto
  with \<open>parse_bp_notification ?d = Inr m\<close> len show ?thesis by simp
qed

text \<open>
  C5 (as stated). The claim: decoding the encoded word yields the mantissa times ten to
  the exponent. For a negative exponent \<open>parse_sfloat\<close> multiplies in binary floating
  point: on mantissa 3 and exponent -1, the bytes \<open>0x03, 0xF0\<close>, it returns the double
  \<open>0.30000000000000004\<close>, which is not three tenths.
\<close>

theorem sfloat_inexact_counterexample:
  "encode_sfloat 3 (- 1) = [0x03, 0xF0] \<and>
   parse_sfloat (encode_sfloat 3 (- 1)) = Inr (5404319552844596 / 2 ^ 54) \<and>
   parse_sfloat (encode_sfloat 3 (- 1)) \<noteq> Inr (of_int 3 * 10 powi (- 1))"
proof -
  have enc: "encode_sfloat 3 (- 1) = [0x03, 0xF0]"
    by (simp add: encode_sfloat_def)
  have eq: "(3 :: rat) * (7205759403792794 / 2 ^ 56) = 10808639105689191 / 36028797018963968"
    by simp
  have prod: "round_double (3 * (7205759403792794 / 2 ^ 56)) = 5404319552844596 / 2 ^ 54"
    by (subst eq) (rule round_double_three_tenths)
  have "times_int 3 (pow10 (- 1))
          = PyFloat (round_double (round_double 3 * round_double (1 / 10)))"
    by (simp add: pow10_def)
  also have "round_double (round_double 3 * round_double (1 / 10))
          = 5404319552844596 / 2 ^ 54"
    by (simp only: round_double_3 round_double_tenth prod)
  finally have py: "times_int 3 (pow10 (- 1)) = PyFloat (5404319552844596 / 2 ^ 54)" .
  have "parse_sfloat [0x03, 0xF0] = Inr (num_value (times_int 3 (pow10 (- 1))))"
    by (simp add: parse_sfloat_def)
  then have dec: "parse_sfloat [0x03, 0xF0] = Inr (5404319552844596 / 2 ^ 54)"
    by (simp only: py num_value.simps)
  have ne: "(5404319552844596 / 2 ^ 54 :: rat) \<noteq> of_int 3 * 10 powi (- 1)"
    by (simp add: power_int_minus)
  show ?thesis using enc dec ne by simp
qed

text \<open>
  C5 (amended). For every mantissa in \<open>[-2048, 2047]\<close> and exponent in \<open>[-8, 7]\<close>,
  decoding the two little-endian bytes of the word with the mantissa in bits 0-11 and the
  exponent in bits 12-15, both in two's complement, gives the value of Python's
  \<open>mantissa * (10 ** exponent)\<close> on that mantissa and exponent; for an exponent that is
  not negative this is exactly the mantissa times ten to the exponent.
\<close>

theorem sfloat_roundtrip:
  assumes "- 2048 \<le> mantissa" and "mantissa \<le> 2047"
    and "- 8 \<le> exponent" and "exponent \<le> 7"
  shows "parse_sfloat (encode_sfloat mantissa exponent)
           = Inr (num_value (times_int mantissa (pow10 exponent)))
       \<and> (0 \<le> exponent \<longrightarrow>
            parse_sfloat (encode_sfloat mantissa exponent)
              = Inr (of_int mantissa * 10 powi exponent))"
proof -
  define w where "w = mantissa mod 4096 + 4096 * (exponent mod 16)"
  have m_rng: "0 \<le> mantissa mod 4096" "mantissa mod 4096 < 4096" by simp_all
  have e_rng: "0 \<le> exponent mod 16" "exponent mod 16 < 16" by simp_all
  have w0: "0 \<le> w" using m_rng e_rng by (simp add: w_def)
  have w1: "w < 65536" using m_rng e_rng by (simp add: w_def)
  have val: "uint (word_of_int (w mod 256) :: byte)
               OR push_bit 8 (uint (word_of_int (w div 256) :: byte)) = w"
    using w0 w1 by (rule or_bytes)
  have lowm: "w mod 4096 = mantissa mod 4096" by (simp add: w_def)
  have "w div 4096 = exponent mod 16" using m_rng by (simp add: w_def)
  then have highe: "drop_bit 12 w mod 16 = exponent mod 16"
    by (simp add: drop_bit_eq_div)
  have "parse_sfloat [word_of_int (w mod 256), word_of_int (w div 256)]
          = Inr (num_value (times_int
                   (if w mod 4096 \<ge> 0x0800 then w mod 4096 - 0x1000 else w mod 4096)
                   (pow10 (if drop_bit 12 w mod 16 \<ge> 0x0008
                           then drop_bit 12 w mod 16 - 0x0010
                           else drop_bit 12 w mod 16))))"
    by (simp add: parse_sfloat_def Let_def val and_0FFF and_000F split del: if_split)
  then have "parse_sfloat [word_of_int (w mod 256), word_of_int (w div 256)]
          = Inr (num_value (times_int mantissa (pow10 exponent)))"
    by (simp only: lowm highe signed12[OF assms(1,2)] signed4[OF assms(3,4)])
  then have dec: "parse_sfloat (encode_sfloat mantissa exponent)
           = Inr (num_value (times_int mantissa (pow10 exponent)))"
    by (simp add: encode_sfloat_def Let_def w_def)
  show ?thesis using dec by (simp add: python_product_exact)
qed

theorem sfloat_roundtrip_witness:
  "- 2048 \<le> (- 5 :: int) \<and> (- 5 :: int) \<le> 2047 \<and> - 8 \<le> (2 :: int) \<and> (2 :: int) \<le> 7
   \<and> encode_sfloat (- 5) 2 = [0xFB, 0x2F]
   \<and> parse_sfloat [0xFB, 0x2F] = Inr (- 500)"
proof -
  have enc: "encode_sfloat (- 5) 2 = [0xFB, 0x2F]"
    by (simp add: encode_sfloat_def)
  have "parse_sfloat (encode_sfloat (- 5) 2)
           = Inr (num_value (times_int (- 5) (pow10 2)))
       \<and> (0 \<le> (2 :: int) \<longrightarrow>
            parse_sfloat (encode_sfloat (- 5) 2) = Inr (of_int (- 5) * 10 powi 2))"
    by (rule sfloat_roundtrip) simp_all
  then show ?thesis by (simp add: enc pow10_def)
qed

end
